theory Spec2Isabelle
  imports Main "HOL-Library.Word"
begin

section \<open>Machine integers of the C++ source\<close>

text \<open>
  The geometry code computes with C++ \<open>int\<close> (32 bits, signed). Its values are the
  integers between \<open>INT_MIN\<close> and \<open>INT_MAX\<close>; a subtraction whose exact result leaves
  that range has no defined behaviour in C++, so the model returns \<open>None\<close> there.
  Texture dimensions are \<open>unsigned int\<close>, modelled as 32-bit words.
\<close>

definition INT_MIN :: int where
  "INT_MIN = - (2 ^ 31)"

definition INT_MAX :: int where
  "INT_MAX = 2 ^ 31 - 1"

definition is_int :: "int \<Rightarrow> bool" where
  "is_int x \<longleftrightarrow> INT_MIN \<le> x \<and> x \<le> INT_MAX"

definition int_sub :: "int \<Rightarrow> int \<Rightarrow> int option" where
  "int_sub a b = (if is_int (a - b) then Some (a - b) else None)"

text \<open>\<open>std::max(a, b)\<close> is \<open>(a < b) ? b : a\<close>.\<close>

definition std_max :: "int \<Rightarrow> int \<Rightarrow> int" where
  "std_max a b = (if a < b then b else a)"

text \<open>\<open>std::clamp(v, lo, hi)\<close> is \<open>(v < lo) ? lo : (hi < v) ? hi : v\<close>.\<close>

definition std_clamp :: "int \<Rightarrow> int \<Rightarrow> int \<Rightarrow> int" where
  "std_clamp v lo hi = (if v < lo then lo else if hi < v then hi else v)"

section \<open>OverlayGeometryManager\<close>

datatype Anchor = TopRight | TopLeft | BottomRight | BottomLeft

text \<open>
  The declaration of \<open>Geometry\<close> is in a header that is not among the sources. Its fields
  are the \<open>int\<close> arguments that \<open>setGeometry\<close> stores, and \<open>std::max\<close> and \<open>std::clamp\<close>,
  which take operands of one type, are applied to them together with the literal \<open>0\<close>.
\<close>

record Geometry =
  width :: int
  height :: int
  offset_x :: int
  offset_y :: int
  anchor :: Anchor

text \<open>\<open>QSize\<close>: the size of the render panel, read through \<open>width()\<close> and \<open>height()\<close>.\<close>

record QSize =
  size_width :: int
  size_height :: int

text \<open>\<open>OverlayGeometryManager::setGeometry\<close> stores its five arguments.\<close>

definition setGeometry :: "int \<Rightarrow> int \<Rightarrow> int \<Rightarrow> int \<Rightarrow> Anchor \<Rightarrow> Geometry" where
  "setGeometry w h ox oy a =
     \<lparr>width = w, height = h, offset_x = ox, offset_y = oy, anchor = a\<rparr>"

definition calculateClampedOffsets :: "Geometry \<Rightarrow> QSize \<Rightarrow> (int \<times> int) option" where
  "calculateClampedOffsets g panel_size =
     (case int_sub (size_width panel_size) (width g) of
        None \<Rightarrow> None
      | Some dx \<Rightarrow>
          (case int_sub (size_height panel_size) (height g) of
             None \<Rightarrow> None
           | Some dy \<Rightarrow>
               (let max_x_offset = std_max 0 dx;
                    max_y_offset = std_max 0 dy;
                    clamped_x = std_clamp (offset_x g) 0 max_x_offset;
                    clamped_y = std_clamp (offset_y g) 0 max_y_offset
                in Some (clamped_x, clamped_y))))"

text \<open>
  The two subtractions of an anchored coordinate,
  \<open>panel_size.width() - geometry_.width - clamped_x\<close>, evaluated left to right.
\<close>

definition from_far_edge :: "int \<Rightarrow> int \<Rightarrow> int \<Rightarrow> int option" where
  "from_far_edge panel_extent extent clamped =
     (case int_sub panel_extent extent of
        None \<Rightarrow> None
      | Some d \<Rightarrow> int_sub d clamped)"

definition calculateAbsolutePosition :: "Geometry \<Rightarrow> QSize \<Rightarrow> (int \<times> int) option" where
  "calculateAbsolutePosition g panel_size =
     (case calculateClampedOffsets g panel_size of
        None \<Rightarrow> None
      | Some (clamped_x, clamped_y) \<Rightarrow>
          (case anchor g of
             TopRight \<Rightarrow>
               (case from_far_edge (size_width panel_size) (width g) clamped_x of
                  None \<Rightarrow> None
                | Some absolute_x \<Rightarrow> Some (absolute_x, clamped_y))
           | TopLeft \<Rightarrow> Some (clamped_x, clamped_y)
           | BottomRight \<Rightarrow>
               (case from_far_edge (size_width panel_size) (width g) clamped_x of
                  None \<Rightarrow> None
                | Some absolute_x \<Rightarrow>
                    (case from_far_edge (size_height panel_size) (height g) clamped_y of
                       None \<Rightarrow> None
                     | Some absolute_y \<Rightarrow> Some (absolute_x, absolute_y)))
           | BottomLeft \<Rightarrow>
               (case from_far_edge (size_height panel_size) (height g) clamped_y of
                  None \<Rightarrow> None
                | Some absolute_y \<Rightarrow> Some (clamped_x, absolute_y))))"

definition fitsWithinPanel :: "Geometry \<Rightarrow> QSize \<Rightarrow> bool" where
  "fitsWithinPanel g panel_size \<longleftrightarrow>
     width g \<le> size_width panel_size \<and> height g \<le> size_height panel_size"

section \<open>Calls into the rendering system and the widget\<close>

type_synonym uint = "32 word"

text \<open>
  The calls that the overlay code makes into Ogre, Qt and the widget, in the order made.
  Every operation below that makes such a call appends to a list of these.
\<close>

datatype event =
    BufferLock nat
  | BufferUnlock nat
  | GetCurrentLock nat
  | Memset nat uint
  | TextureRemove string
  | TextureCreateManual string uint uint
  | WidgetResize int int
  | ImageFill
  | WidgetRender
  | PainterEnd

text \<open>
  An \<open>Ogre::HardwarePixelBuffer\<close>: its identity and the \<open>data\<close> pointer of its
  current lock (\<open>None\<close> is a null pointer). An \<open>Ogre::HardwarePixelBufferSharedPtr\<close> is
  such a buffer or null.
\<close>

record HardwarePixelBuffer =
  buffer_id :: nat
  lock_data :: "nat option"

type_synonym HardwarePixelBufferSharedPtr = "HardwarePixelBuffer option"

text \<open>
  \<open>QImage\<close>: null, or an image over caller-owned memory. Qt's constructor from a data
  pointer takes \<open>int\<close> dimensions and gives a null image when one is not positive.
\<close>

datatype QImage = NullImage | ImageOver nat int int

definition QImage_from_data :: "nat \<Rightarrow> uint \<Rightarrow> uint \<Rightarrow> QImage" where
  "QImage_from_data dest w h =
     (if sint w \<le> 0 \<or> sint h \<le> 0 then NullImage else ImageOver dest (sint w) (sint h))"

definition isNull :: "QImage \<Rightarrow> bool" where
  "isNull img = (case img of NullImage \<Rightarrow> True | ImageOver _ _ _ \<Rightarrow> False)"

section \<open>ScopedPixelBuffer\<close>

record ScopedPixelBuffer =
  buffer :: HardwarePixelBufferSharedPtr

text \<open>The constructor from a buffer handle: a non-null buffer is locked.\<close>

definition ScopedPixelBuffer_ctor ::
  "HardwarePixelBufferSharedPtr \<Rightarrow> event list \<Rightarrow> ScopedPixelBuffer \<times> event list" where
  "ScopedPixelBuffer_ctor b tr =
     (\<lparr>buffer = b\<rparr>,
      case b of None \<Rightarrow> tr | Some hb \<Rightarrow> tr @ [BufferLock (buffer_id hb)])"

text \<open>
  The move constructor: the new object takes the handle, and moving from a shared
  pointer leaves it null. The result is (new object, moved-from object).
\<close>

definition ScopedPixelBuffer_move ::
  "ScopedPixelBuffer \<Rightarrow> ScopedPixelBuffer \<times> ScopedPixelBuffer" where
  "ScopedPixelBuffer_move other = (\<lparr>buffer = buffer other\<rparr>, \<lparr>buffer = None\<rparr>)"

text \<open>
  Move assignment between two distinct objects (the source's \<open>this != &other\<close> is decided
  by the caller, see \<open>guard_step\<close>). The result is (this, other, calls made).
\<close>

definition ScopedPixelBuffer_move_assign ::
  "ScopedPixelBuffer \<Rightarrow> ScopedPixelBuffer \<Rightarrow> event list \<Rightarrow>
     ScopedPixelBuffer \<times> ScopedPixelBuffer \<times> event list" where
  "ScopedPixelBuffer_move_assign this other tr =
     (\<lparr>buffer = buffer other\<rparr>, \<lparr>buffer = None\<rparr>,
      case buffer this of None \<Rightarrow> tr | Some hb \<Rightarrow> tr @ [BufferUnlock (buffer_id hb)])"

definition ScopedPixelBuffer_dtor :: "ScopedPixelBuffer \<Rightarrow> event list \<Rightarrow> event list" where
  "ScopedPixelBuffer_dtor this tr =
     (case buffer this of None \<Rightarrow> tr | Some hb \<Rightarrow> tr @ [BufferUnlock (buffer_id hb)])"

definition valid :: "ScopedPixelBuffer \<Rightarrow> bool" where
  "valid this \<longleftrightarrow> buffer this \<noteq> None"

text \<open>
  \<open>getQImage\<close>: \<open>width * height * 4\<close> is computed in \<open>unsigned int\<close> and wraps.
\<close>

definition getQImage ::
  "ScopedPixelBuffer \<Rightarrow> uint \<Rightarrow> uint \<Rightarrow> event list \<Rightarrow> QImage \<times> event list" where
  "getQImage this w h tr =
     (case buffer this of
        None \<Rightarrow> (NullImage, tr)
      | Some hb \<Rightarrow>
          (case lock_data hb of
             None \<Rightarrow> (NullImage, tr @ [GetCurrentLock (buffer_id hb)])
           | Some dest \<Rightarrow>
               (QImage_from_data dest w h,
                tr @ [GetCurrentLock (buffer_id hb), Memset dest (w * h * 4)])))"

subsection \<open>Guard objects in storage\<close>

text \<open>
  Guards live at addresses, so that moves between two objects and the self-assignment
  test can be written as the source has them. A program over guards is a list of
  constructions, move constructions, move assignments and destructions; C++ runs the
  destructor of every constructed guard when its scope is left, whether by reaching its
  end, by an early \<open>return\<close> or by an exception passing through. A step that is not
  well-formed C++ (constructing over a live object, using a dead one) gives \<open>None\<close>.
\<close>

datatype guard_op =
    Construct nat HardwarePixelBufferSharedPtr
  | MoveConstruct nat nat
  | MoveAssign nat nat
  | Destroy nat

record guard_state =
  live :: "nat \<Rightarrow> ScopedPixelBuffer option"
  calls :: "event list"

fun guard_step :: "guard_op \<Rightarrow> guard_state \<Rightarrow> guard_state option" where
  "guard_step (Construct a b) s =
     (case live s a of
        Some _ \<Rightarrow> None
      | None \<Rightarrow>
          (let (obj, tr) = ScopedPixelBuffer_ctor b (calls s)
           in Some \<lparr>live = (live s)(a \<mapsto> obj), calls = tr\<rparr>))"
| "guard_step (MoveConstruct a src) s =
     (case live s a of
        Some _ \<Rightarrow> None
      | None \<Rightarrow>
          (case live s src of
             None \<Rightarrow> None
           | Some other \<Rightarrow>
               (let (obj, other') = ScopedPixelBuffer_move other
                in Some \<lparr>live = (live s)(src \<mapsto> other', a \<mapsto> obj), calls = calls s\<rparr>)))"
| "guard_step (MoveAssign a src) s =
     (case live s a of
        None \<Rightarrow> None
      | Some this \<Rightarrow>
          (case live s src of
             None \<Rightarrow> None
           | Some other \<Rightarrow>
               (if a \<noteq> src then
                  (let (this', other', tr) = ScopedPixelBuffer_move_assign this other (calls s)
                   in Some \<lparr>live = (live s)(src \<mapsto> other', a \<mapsto> this'), calls = tr\<rparr>)
                else Some s)))"
| "guard_step (Destroy a) s =
     (case live s a of
        None \<Rightarrow> None
      | Some this \<Rightarrow>
          Some \<lparr>live = (live s)(a := None), calls = ScopedPixelBuffer_dtor this (calls s)\<rparr>)"

fun run_guards :: "guard_op list \<Rightarrow> guard_state \<Rightarrow> guard_state option" where
  "run_guards [] s = Some s"
| "run_guards (x # xs) s =
     (case guard_step x s of None \<Rightarrow> None | Some s' \<Rightarrow> run_guards xs s')"

definition no_guards :: guard_state where
  "no_guards = \<lparr>live = (\<lambda>a. None), calls = []\<rparr>"

text \<open>How often a buffer has been locked and unlocked in a list of calls.\<close>

definition locks :: "nat \<Rightarrow> event list \<Rightarrow> nat" where
  "locks i tr = count_list tr (BufferLock i)"

definition unlocks :: "nat \<Rightarrow> event list \<Rightarrow> nat" where
  "unlocks i tr = count_list tr (BufferUnlock i)"

text \<open>The addresses of the live guards that hold buffer \<open>i\<close>.\<close>

definition holders :: "nat \<Rightarrow> guard_state \<Rightarrow> nat set" where
  "holders i s = {a. \<exists>g hb. live s a = Some g \<and> buffer g = Some hb \<and> buffer_id hb = i}"

section \<open>OverlayPanel\<close>

text \<open>
  The Ogre objects that an \<open>OverlayPanel\<close> owns, reduced to what the panel code reads
  and writes. Positions and dimensions are stored as the integers passed in (Ogre keeps
  them as \<open>Ogre::Real\<close>).
\<close>

record Overlay =
  overlay_name :: string
  elements2D :: "string list"
  visible :: bool

record PanelOverlayElement =
  element_name :: string
  materialName :: string
  position :: "int \<times> int"
  dimensions :: "uint \<times> uint"

record Material =
  material_getName :: string
  textureUnitStates :: "string list"
  transparent_alpha :: bool

record Texture =
  getName :: string
  getWidth :: uint
  getHeight :: uint

record OverlayPanel =
  name :: string
  overlay :: "Overlay option"
  panel :: "PanelOverlayElement option"
  material :: "Material option"
  texture :: "Texture option"

text \<open>
  \<open>Ogre::OverlayManager::getSingletonPtr()\<close> gives null (\<open>None\<close>) or the manager; the
  visibility that the manager gives a new overlay is left open.
\<close>

record Ogre_OverlayManager =
  new_overlay_visible :: bool

definition Overlay_show :: "Overlay \<Rightarrow> Overlay" where
  "Overlay_show ov = ov\<lparr>visible := True\<rparr>"

definition Overlay_hide :: "Overlay \<Rightarrow> Overlay" where
  "Overlay_hide ov = ov\<lparr>visible := False\<rparr>"

definition OverlayPanel_ctor :: "Ogre_OverlayManager option \<Rightarrow> string \<Rightarrow> OverlayPanel" where
  "OverlayPanel_ctor overlay_mgr nm =
     (case overlay_mgr of
        None \<Rightarrow> \<lparr>name = nm, overlay = None, panel = None, material = None, texture = None\<rparr>
      | Some mgr \<Rightarrow>
          (let overlay_name = nm @ ''Overlay'';
               panel_name = nm @ ''Panel'';
               material_name = nm @ ''Material'';
               ov = \<lparr>overlay_name = overlay_name, elements2D = [],
                     visible = new_overlay_visible mgr\<rparr>;
               mat = \<lparr>material_getName = material_name, textureUnitStates = [],
                      transparent_alpha = False\<rparr>;
               pnl = \<lparr>element_name = panel_name, materialName = material_getName mat,
                      position = (0, 0), dimensions = (0, 0)\<rparr>;
               ov1 = ov\<lparr>elements2D := elements2D ov @ [element_name pnl]\<rparr>
           in \<lparr>name = nm, overlay = Some (Overlay_hide ov1), panel = Some pnl,
               material = Some mat, texture = None\<rparr>))"

definition OverlayPanel_show :: "OverlayPanel \<Rightarrow> OverlayPanel" where
  "OverlayPanel_show p =
     (case overlay p of None \<Rightarrow> p | Some ov \<Rightarrow> p\<lparr>overlay := Some (Overlay_show ov)\<rparr>)"

definition OverlayPanel_hide :: "OverlayPanel \<Rightarrow> OverlayPanel" where
  "OverlayPanel_hide p =
     (case overlay p of None \<Rightarrow> p | Some ov \<Rightarrow> p\<lparr>overlay := Some (Overlay_hide ov)\<rparr>)"

definition isVisible :: "OverlayPanel \<Rightarrow> bool" where
  "isVisible p = (case overlay p of None \<Rightarrow> False | Some ov \<Rightarrow> visible ov)"

definition setPosition :: "int \<Rightarrow> int \<Rightarrow> OverlayPanel \<Rightarrow> OverlayPanel" where
  "setPosition left_px top_px p =
     (case panel p of
        None \<Rightarrow> p
      | Some pnl \<Rightarrow> p\<lparr>panel := Some (pnl\<lparr>position := (left_px, top_px)\<rparr>)\<rparr>)"

definition setDimensions :: "uint \<Rightarrow> uint \<Rightarrow> OverlayPanel \<Rightarrow> OverlayPanel" where
  "setDimensions w h p =
     (case panel p of
        None \<Rightarrow> p
      | Some pnl \<Rightarrow> p\<lparr>panel := Some (pnl\<lparr>dimensions := (w, h)\<rparr>)\<rparr>)"

text \<open>
  \<open>updateTextureSize\<close>. \<open>TextureManager::createManual\<close> gives a texture of the name and
  size asked for. The function dereferences \<open>material_\<close> without a test when it makes a
  texture: on a null \<open>material_\<close> the result is \<open>None\<close>.
\<close>

definition updateTextureSize ::
  "uint \<Rightarrow> uint \<Rightarrow> OverlayPanel \<times> event list \<Rightarrow> (OverlayPanel \<times> event list) option" where
  "updateTextureSize w h s =
     (let (p, tr) = s in
      case panel p of
        None \<Rightarrow> Some (p, tr)
      | Some _ \<Rightarrow>
          (let width = (if w = 0 then 1 else w);
               height = (if h = 0 then 1 else h);
               texture_name = name p @ ''Texture''
           in if (case texture p of
                    None \<Rightarrow> True
                  | Some t \<Rightarrow> getWidth t \<noteq> width \<or> getHeight t \<noteq> height)
              then
                (case material p of
                   None \<Rightarrow> None
                 | Some mat \<Rightarrow>
                     (let (mat1, tr1) =
                            (case texture p of
                               None \<Rightarrow> (mat, tr)
                             | Some t \<Rightarrow>
                                 (mat\<lparr>textureUnitStates := []\<rparr>, tr @ [TextureRemove (getName t)]));
                          t' = \<lparr>getName = texture_name, getWidth = width, getHeight = height\<rparr>;
                          tr2 = tr1 @ [TextureCreateManual texture_name width height];
                          mat2 = mat1\<lparr>textureUnitStates := textureUnitStates mat1 @ [getName t'],
                                     transparent_alpha := True\<rparr>
                      in Some (p\<lparr>material := Some mat2, texture := Some t'\<rparr>, tr2)))
              else Some (p, tr)))"

text \<open>
  \<open>getPixelBuffer\<close>; \<open>hw\<close> is what \<open>texture_->getBuffer()\<close> gives when it is called.
\<close>

definition getPixelBuffer ::
  "HardwarePixelBufferSharedPtr \<Rightarrow> OverlayPanel \<Rightarrow> event list \<Rightarrow>
     ScopedPixelBuffer \<times> event list" where
  "getPixelBuffer hw p tr =
     (case texture p of
        None \<Rightarrow> ScopedPixelBuffer_ctor None tr
      | Some _ \<Rightarrow> ScopedPixelBuffer_ctor hw tr)"

definition textureWidth :: "OverlayPanel \<Rightarrow> uint" where
  "textureWidth p = (case texture p of None \<Rightarrow> 0 | Some t \<Rightarrow> getWidth t)"

definition textureHeight :: "OverlayPanel \<Rightarrow> uint" where
  "textureHeight p = (case texture p of None \<Rightarrow> 0 | Some t \<Rightarrow> getHeight t)"

subsection \<open>Operation sequences on a panel\<close>

text \<open>
  The state-changing members of \<open>OverlayPanel\<close> as a datatype, and a run of a list of them.
  \<open>GetPixelBuffer hw\<close> takes the guard and lets it go out of scope at once.
\<close>

datatype panel_op =
    Show
  | Hide
  | SetPosition int int
  | SetDimensions uint uint
  | UpdateTextureSize uint uint
  | GetPixelBuffer HardwarePixelBufferSharedPtr

fun panel_step ::
  "panel_op \<Rightarrow> OverlayPanel \<times> event list \<Rightarrow> (OverlayPanel \<times> event list) option" where
  "panel_step Show (p, tr) = Some (OverlayPanel_show p, tr)"
| "panel_step Hide (p, tr) = Some (OverlayPanel_hide p, tr)"
| "panel_step (SetPosition x y) (p, tr) = Some (setPosition x y p, tr)"
| "panel_step (SetDimensions w h) (p, tr) = Some (setDimensions w h p, tr)"
| "panel_step (UpdateTextureSize w h) (p, tr) = updateTextureSize w h (p, tr)"
| "panel_step (GetPixelBuffer hw) (p, tr) =
     (let (g, tr1) = getPixelBuffer hw p tr in Some (p, ScopedPixelBuffer_dtor g tr1))"

fun run_panel ::
  "panel_op list \<Rightarrow> OverlayPanel \<times> event list \<Rightarrow> (OverlayPanel \<times> event list) option" where
  "run_panel [] s = Some s"
| "run_panel (x # xs) s =
     (case panel_step x s of None \<Rightarrow> None | Some s' \<Rightarrow> run_panel xs s')"

text \<open>
  A validly constructed resource: the constructor found the overlay manager and made
  overlay, panel and material together.
\<close>

definition valid_resource :: "OverlayPanel \<Rightarrow> bool" where
  "valid_resource p \<longleftrightarrow> overlay p \<noteq> None \<and> panel p \<noteq> None \<and> material p \<noteq> None"

text \<open>How many textures a list of calls creates and removes.\<close>

definition is_create :: "event \<Rightarrow> bool" where
  "is_create e = (case e of TextureCreateManual _ _ _ \<Rightarrow> True | _ \<Rightarrow> False)"

definition is_remove :: "event \<Rightarrow> bool" where
  "is_remove e = (case e of TextureRemove _ \<Rightarrow> True | _ \<Rightarrow> False)"

definition creations :: "event list \<Rightarrow> nat" where
  "creations tr = length (filter is_create tr)"

definition removals :: "event list \<Rightarrow> nat" where
  "removals tr = length (filter is_remove tr)"

text \<open>Whether a list of operations asks for a texture size, and for a non-zero one.\<close>

definition is_resize :: "panel_op \<Rightarrow> bool" where
  "is_resize x = (case x of UpdateTextureSize _ _ \<Rightarrow> True | _ \<Rightarrow> False)"

definition is_nonzero_resize :: "panel_op \<Rightarrow> bool" where
  "is_nonzero_resize x = (case x of UpdateTextureSize w h \<Rightarrow> w \<noteq> 0 \<or> h \<noteq> 0 | _ \<Rightarrow> False)"

definition is_show :: "panel_op \<Rightarrow> bool" where
  "is_show x = (case x of Show \<Rightarrow> True | _ \<Rightarrow> False)"

section \<open>OverlayManager\<close>

text \<open>
  \<open>render_panel_\<close> points to the host's render panel; the model keeps the size that
  \<open>size()\<close> reads from it.
\<close>

record OverlayManager =
  overlay_panel :: "OverlayPanel option"
  render_panel :: "QSize option"

text \<open>
  \<open>OverlayManager::setGeometry\<close>. The casts of \<open>width\<close> and \<open>height\<close> to
  \<open>unsigned int\<close> reduce modulo \<open>2 ^ 32\<close>.
\<close>

definition OverlayManager_setGeometry ::
  "int \<Rightarrow> int \<Rightarrow> int \<Rightarrow> int \<Rightarrow> Anchor \<Rightarrow> OverlayManager \<times> event list \<Rightarrow>
     (OverlayManager \<times> event list) option" where
  "OverlayManager_setGeometry w h ox oy a s =
     (let (m, tr) = s in
      case overlay_panel m of
        None \<Rightarrow> Some (m, tr)
      | Some p \<Rightarrow>
          (case render_panel m of
             None \<Rightarrow> Some (m, tr)
           | Some panel_size \<Rightarrow>
               (case int_sub (size_width panel_size) w of
                  None \<Rightarrow> None
                | Some dx \<Rightarrow>
                    (case int_sub (size_height panel_size) h of
                       None \<Rightarrow> None
                     | Some dy \<Rightarrow>
                         (let max_x_offset = std_max 0 dx;
                              max_y_offset = std_max 0 dy;
                              ox' = std_clamp ox 0 max_x_offset;
                              oy' = std_clamp oy 0 max_y_offset;
                              xy = (case a of
                                      TopRight \<Rightarrow>
                                        (case from_far_edge (size_width panel_size) w ox' of
                                           None \<Rightarrow> None
                                         | Some x \<Rightarrow> Some (x, oy'))
                                    | TopLeft \<Rightarrow> Some (ox', oy')
                                    | BottomRight \<Rightarrow>
                                        (case from_far_edge (size_width panel_size) w ox' of
                                           None \<Rightarrow> None
                                         | Some x \<Rightarrow>
                                             (case from_far_edge (size_height panel_size) h oy' of
                                                None \<Rightarrow> None
                                              | Some y \<Rightarrow> Some (x, y)))
                                    | BottomLeft \<Rightarrow>
                                        (case from_far_edge (size_height panel_size) h oy' of
                                           None \<Rightarrow> None
                                         | Some y \<Rightarrow> Some (ox', y)))
                          in case xy of
                               None \<Rightarrow> None
                             | Some (x, y) \<Rightarrow>
                                 (case updateTextureSize (word_of_int w) (word_of_int h) (p, tr) of
                                    None \<Rightarrow> None
                                  | Some (p1, tr1) \<Rightarrow>
                                      Some (m\<lparr>overlay_panel :=
                                                Some (setPosition x y
                                                  (setDimensions (word_of_int w) (word_of_int h) p1))\<rparr>,
                                            tr1)))))))"

definition setVisible :: "bool \<Rightarrow> OverlayManager \<Rightarrow> OverlayManager" where
  "setVisible v m =
     (case overlay_panel m of
        None \<Rightarrow> m
      | Some p \<Rightarrow>
          m\<lparr>overlay_panel := Some (if v then OverlayPanel_show p else OverlayPanel_hide p)\<rparr>)"

text \<open>
  \<open>OverlayManager::render\<close>. \<open>hw\<close> is what \<open>texture_->getBuffer()\<close> gives in this frame.
  The guard \<open>buffer\<close> is a local of the function: its destructor runs at every
  \<open>return\<close> after its construction and at the end of the body.
\<close>

definition render ::
  "HardwarePixelBufferSharedPtr \<Rightarrow> OverlayManager \<times> event list \<Rightarrow>
     (OverlayManager \<times> event list) option" where
  "render hw s =
     (let (m, tr) = s in
      case overlay_panel m of
        None \<Rightarrow> Some (m, tr)
      | Some p \<Rightarrow>
          (let width = textureWidth p; height = textureHeight p
           in if width = 0 \<or> height = 0 then Some (m, tr)
              else
                (case updateTextureSize width height (p, tr) of
                   None \<Rightarrow> None
                 | Some (p1, tr1) \<Rightarrow>
                     (let p2 = setDimensions width height p1;
                          m2 = m\<lparr>overlay_panel := Some p2\<rparr>;
                          tr2 = tr1 @ [WidgetResize (sint width) (sint height)];
                          (buf, tr3) = getPixelBuffer hw p2 tr2
                      in if \<not> valid buf then Some (m2, ScopedPixelBuffer_dtor buf tr3)
                         else
                           (let (img, tr4) = getQImage buf width height tr3
                            in if isNull img then Some (m2, ScopedPixelBuffer_dtor buf tr4)
                               else
                                 Some (m2, ScopedPixelBuffer_dtor buf
                                             (tr4 @ [ImageFill, WidgetRender, PainterEnd])))))))"

text \<open>Whether a list of calls paints the widget, and whether it locks a buffer.\<close>

definition is_lock :: "event \<Rightarrow> bool" where
  "is_lock e = (case e of BufferLock _ \<Rightarrow> True | _ \<Rightarrow> False)"

definition is_paint :: "event \<Rightarrow> bool" where
  "is_paint e = (case e of WidgetRender \<Rightarrow> True | _ \<Rightarrow> False)"

text \<open>A texture creation in a list of calls that asks for a non-zero width and height.\<close>

definition nonzero_create :: "event \<Rightarrow> bool" where
  "nonzero_create e = (case e of TextureCreateManual _ cw ch \<Rightarrow> cw \<noteq> 0 \<and> ch \<noteq> 0 | _ \<Rightarrow> True)"

text \<open>Whether the panel's texture exists and has the given width and height.\<close>

definition has_size :: "OverlayPanel \<Rightarrow> uint \<Rightarrow> uint \<Rightarrow> bool" where
  "has_size p w h \<longleftrightarrow>
     (case texture p of None \<Rightarrow> False | Some t \<Rightarrow> getWidth t = w \<and> getHeight t = h)"

text \<open>
  The calls of a frame that is not skipped, by what \<open>getBuffer()\<close> gives: the widget is
  resized; a non-null buffer is locked, read and unlocked; the pixels are cleared when the
  lock has memory; the widget is painted when the image over that memory is not null.
\<close>

definition render_calls :: "HardwarePixelBufferSharedPtr \<Rightarrow> uint \<Rightarrow> uint \<Rightarrow> event list" where
  "render_calls hw w h =
     WidgetResize (sint w) (sint h) #
     (case hw of
        None \<Rightarrow> []
      | Some hb \<Rightarrow>
          [BufferLock (buffer_id hb), GetCurrentLock (buffer_id hb)] @
          (case lock_data hb of
             None \<Rightarrow> []
           | Some dest \<Rightarrow>
               Memset dest (w * h * 4) #
               (if isNull (QImage_from_data dest w h) then []
                else [ImageFill, WidgetRender, PainterEnd])) @
          [BufferUnlock (buffer_id hb)])"

text \<open>
  The balance of a guard state: each buffer has been locked as often as it has been
  unlocked, plus once for every live guard that holds it.
\<close>

definition balanced :: "guard_state \<Rightarrow> bool" where
  "balanced s \<longleftrightarrow>
     finite (dom (live s)) \<and>
     (\<forall>i. locks i (calls s) = unlocks i (calls s) + card (holders i s))"

section \<open>Geometry: clamping and anchoring\<close>

lemma zero_is_int: "is_int 0"
  by (simp add: is_int_def INT_MIN_def INT_MAX_def)

lemma int_sub_Some_iff: "int_sub a b = Some d \<longleftrightarrow> is_int (a - b) \<and> d = a - b"
  by (auto simp: int_sub_def)

lemma int_sub_None_iff: "int_sub a b = None \<longleftrightarrow> \<not> is_int (a - b)"
  by (simp add: int_sub_def)

lemma std_clamp_bounds: "lo \<le> hi \<Longrightarrow> lo \<le> std_clamp v lo hi \<and> std_clamp v lo hi \<le> hi"
  by (simp add: std_clamp_def)

lemma std_max_eq: "std_max a b = max a b"
  by (simp add: std_max_def max_def)

lemma calculateClampedOffsets_defined:
  "calculateClampedOffsets g v \<noteq> None \<longleftrightarrow>
     is_int (size_width v - width g) \<and> is_int (size_height v - height g)"
  by (simp add: calculateClampedOffsets_def int_sub_def Let_def)

lemma calculateClampedOffsets_Some:
  assumes "calculateClampedOffsets g v = Some (cx, cy)"
  shows "cx = std_clamp (offset_x g) 0 (max 0 (size_width v - width g))"
    and "cy = std_clamp (offset_y g) 0 (max 0 (size_height v - height g))"
    and "is_int (size_width v - width g)" and "is_int (size_height v - height g)"
  using assms
  by (auto simp: calculateClampedOffsets_def int_sub_def Let_def std_max_eq split: if_splits)

lemma from_far_edge_clamped:
  assumes "is_int (a - b)"
  shows "from_far_edge a b (std_clamp c 0 (max 0 (a - b))) = Some (a - b - std_clamp c 0 (max 0 (a - b)))"
proof -
  let ?c = "std_clamp c 0 (max 0 (a - b))"
  have "0 \<le> ?c" "?c \<le> max 0 (a - b)"
    using std_clamp_bounds [of 0 "max 0 (a - b)" c] by simp_all
  then have "is_int (a - b - ?c)"
    using assms by (auto simp: is_int_def INT_MIN_def INT_MAX_def max_def split: if_splits)
  then show ?thesis
    using assms by (simp add: from_far_edge_def int_sub_def)
qed

lemma calculateAbsolutePosition_eq:
  "calculateAbsolutePosition g v =
     (case calculateClampedOffsets g v of
        None \<Rightarrow> None
      | Some (cx, cy) \<Rightarrow>
          Some (case anchor g of
                  TopLeft \<Rightarrow> (cx, cy)
                | TopRight \<Rightarrow> (size_width v - width g - cx, cy)
                | BottomLeft \<Rightarrow> (cx, size_height v - height g - cy)
                | BottomRight \<Rightarrow>
                    (size_width v - width g - cx, size_height v - height g - cy)))"
proof (cases "calculateClampedOffsets g v")
  case None
  then show ?thesis by (simp add: calculateAbsolutePosition_def)
next
  case (Some c)
  obtain cx cy where c: "c = (cx, cy)" by (cases c)
  note r = Some [unfolded c]
  note f = calculateClampedOffsets_Some [OF r]
  have fx: "from_far_edge (size_width v) (width g) cx = Some (size_width v - width g - cx)"
    using from_far_edge_clamped [OF f(3), of "offset_x g"] f(1) by simp
  have fy: "from_far_edge (size_height v) (height g) cy = Some (size_height v - height g - cy)"
    using from_far_edge_clamped [OF f(4), of "offset_y g"] f(2) by simp
  show ?thesis
    by (cases "anchor g") (simp_all add: calculateAbsolutePosition_def r fx fy)
qed

text \<open>
  An overlay larger than the panel: a 200 by 200 overlay at TopLeft with offsets (0, 0) on
  a 100 by 100 panel has clamped offsets (0, 0) and position (0, 0), and does not fit.
\<close>

lemma oversized_overlay:
  "calculateClampedOffsets
     \<lparr>width = 200, height = 200, offset_x = 0, offset_y = 0, anchor = TopLeft\<rparr>
     \<lparr>size_width = 100, size_height = 100\<rparr> = Some (0, 0) \<and>
   calculateAbsolutePosition
     \<lparr>width = 200, height = 200, offset_x = 0, offset_y = 0, anchor = TopLeft\<rparr>
     \<lparr>size_width = 100, size_height = 100\<rparr> = Some (0, 0) \<and>
   \<not> fitsWithinPanel
     \<lparr>width = 200, height = 200, offset_x = 0, offset_y = 0, anchor = TopLeft\<rparr>
     \<lparr>size_width = 100, size_height = 100\<rparr>"
  by (simp add: calculateAbsolutePosition_def calculateClampedOffsets_def fitsWithinPanel_def
      int_sub_def is_int_def INT_MIN_def INT_MAX_def std_max_def std_clamp_def)

text \<open>
  \<open>OverlayManager::setGeometry\<close> repeats the computation: the position it hands to the
  panel is the one \<open>calculateAbsolutePosition\<close> gives for the same arguments.
\<close>

lemma OverlayManager_setGeometry_position:
  assumes "overlay_panel m = Some p" and "render_panel m = Some panel_size"
    and "OverlayManager_setGeometry w h ox oy a (m, tr) = Some (m', tr')"
  shows "\<exists>x y p1. calculateAbsolutePosition (setGeometry w h ox oy a) panel_size = Some (x, y) \<and>
           updateTextureSize (word_of_int w) (word_of_int h) (p, tr) = Some (p1, tr') \<and>
           overlay_panel m' =
             Some (setPosition x y (setDimensions (word_of_int w) (word_of_int h) p1))"
  using assms
  by (auto simp: OverlayManager_setGeometry_def calculateAbsolutePosition_def
      calculateClampedOffsets_def setGeometry_def Let_def
      split: option.splits Anchor.splits prod.splits)

text \<open>
  C2. For every geometry and every panel size on which the subtractions are defined, the
  clamped offsets lie in \<open>[0, max(0, V - S)]\<close> on each axis, however far out of range
  the requested offsets are; the function is defined exactly when \<open>V - S\<close> is an \<open>int\<close>
  on both axes. An offset of 10000 with overlay width 200 on a panel of width 800 is
  clamped to 600.
\<close>

theorem clamped_offsets_within_range:
  "(calculateClampedOffsets g v \<noteq> None \<longleftrightarrow>
      is_int (size_width v - width g) \<and> is_int (size_height v - height g)) \<and>
   (\<forall>cx cy. calculateClampedOffsets g v = Some (cx, cy) \<longrightarrow>
      0 \<le> cx \<and> cx \<le> max 0 (size_width v - width g) \<and>
      0 \<le> cy \<and> cy \<le> max 0 (size_height v - height g)) \<and>
   (\<forall>cx cy.
      calculateClampedOffsets
        \<lparr>width = 200, height = h, offset_x = 10000, offset_y = oy, anchor = a\<rparr>
        \<lparr>size_width = 800, size_height = vh\<rparr> = Some (cx, cy) \<longrightarrow> cx = 600)"
proof (intro conjI allI impI)
  show "calculateClampedOffsets g v \<noteq> None \<longleftrightarrow>
      is_int (size_width v - width g) \<and> is_int (size_height v - height g)"
    by (rule calculateClampedOffsets_defined)
next
  fix cx cy
  assume r: "calculateClampedOffsets g v = Some (cx, cy)"
  have x: "cx = std_clamp (offset_x g) 0 (max 0 (size_width v - width g))"
    and y: "cy = std_clamp (offset_y g) 0 (max 0 (size_height v - height g))"
    using calculateClampedOffsets_Some [OF r] by simp_all
  show "0 \<le> cx" "cx \<le> max 0 (size_width v - width g)"
    using std_clamp_bounds [of 0 "max 0 (size_width v - width g)" "offset_x g"] x by simp_all
  show "0 \<le> cy" "cy \<le> max 0 (size_height v - height g)"
    using std_clamp_bounds [of 0 "max 0 (size_height v - height g)" "offset_y g"] y by simp_all
next
  fix cx cy
  assume "calculateClampedOffsets
        \<lparr>width = 200, height = h, offset_x = 10000, offset_y = oy, anchor = a\<rparr>
        \<lparr>size_width = 800, size_height = vh\<rparr> = Some (cx, cy)"
  from calculateClampedOffsets_Some(1) [OF this]
  show "cx = 600" by (simp add: std_clamp_def)
qed

theorem clamped_offsets_within_range_witness:
  "calculateClampedOffsets
     \<lparr>width = 200, height = 100, offset_x = 10000, offset_y = - 7, anchor = TopLeft\<rparr>
     \<lparr>size_width = 800, size_height = 600\<rparr> = Some (600, 0) \<and>
   (0::int) \<le> 600 \<and> (600::int) \<le> max 0 (800 - 200) \<and> (0::int) \<le> max 0 (600 - 100)"
  using clamped_offsets_within_range
    [of "\<lparr>width = 200, height = 100, offset_x = 10000, offset_y = - 7, anchor = TopLeft\<rparr>"
        "\<lparr>size_width = 800, size_height = 600\<rparr>"]
  by (simp add: calculateClampedOffsets_def int_sub_def is_int_def INT_MIN_def INT_MAX_def
      std_max_def std_clamp_def)

text \<open>
  C3. The absolute position is the anchor resolution of the clamped offsets: TopLeft
  keeps both, TopRight measures x from the right edge, BottomLeft measures y from the
  bottom edge, BottomRight measures both from the far edges; the second subtraction never
  leaves the range of \<open>int\<close>. A 200 by 200 overlay anchored BottomRight with offsets (10, 10)
  on a 1920 by 1080 panel is placed at (1710, 870).
\<close>

theorem absolute_position_by_anchor:
  "calculateAbsolutePosition g v =
     (case calculateClampedOffsets g v of
        None \<Rightarrow> None
      | Some (cx, cy) \<Rightarrow>
          Some (case anchor g of
                  TopLeft \<Rightarrow> (cx, cy)
                | TopRight \<Rightarrow> (size_width v - width g - cx, cy)
                | BottomLeft \<Rightarrow> (cx, size_height v - height g - cy)
                | BottomRight \<Rightarrow>
                    (size_width v - width g - cx, size_height v - height g - cy))) \<and>
   calculateAbsolutePosition
     \<lparr>width = 200, height = 200, offset_x = 10, offset_y = 10, anchor = BottomRight\<rparr>
     \<lparr>size_width = 1920, size_height = 1080\<rparr> = Some (1710, 870)"
proof
  show "calculateAbsolutePosition g v =
     (case calculateClampedOffsets g v of
        None \<Rightarrow> None
      | Some (cx, cy) \<Rightarrow>
          Some (case anchor g of
                  TopLeft \<Rightarrow> (cx, cy)
                | TopRight \<Rightarrow> (size_width v - width g - cx, cy)
                | BottomLeft \<Rightarrow> (cx, size_height v - height g - cy)
                | BottomRight \<Rightarrow>
                    (size_width v - width g - cx, size_height v - height g - cy)))"
    by (rule calculateAbsolutePosition_eq)
next
  show "calculateAbsolutePosition
     \<lparr>width = 200, height = 200, offset_x = 10, offset_y = 10, anchor = BottomRight\<rparr>
     \<lparr>size_width = 1920, size_height = 1080\<rparr> = Some (1710, 870)"
    by (simp add: calculateAbsolutePosition_def calculateClampedOffsets_def from_far_edge_def
        int_sub_def is_int_def INT_MIN_def INT_MAX_def std_max_def std_clamp_def)
qed

text \<open>
  C4. When the panel is at least as large as the overlay on both axes, the position
  returned for any anchor and any requested offsets keeps the overlay inside the panel:
  \<open>0 \<le> p\<close> and \<open>p + S \<le> V\<close> on both axes.
\<close>

theorem overlay_stays_inside_viewport:
  assumes "width g \<le> size_width v" and "height g \<le> size_height v"
  shows "(calculateAbsolutePosition g v \<noteq> None \<longleftrightarrow>
            is_int (size_width v - width g) \<and> is_int (size_height v - height g)) \<and>
         (\<forall>x y. calculateAbsolutePosition g v = Some (x, y) \<longrightarrow>
            0 \<le> x \<and> x + width g \<le> size_width v \<and> 0 \<le> y \<and> y + height g \<le> size_height v)"
proof (intro conjI allI impI)
  show "calculateAbsolutePosition g v \<noteq> None \<longleftrightarrow>
            is_int (size_width v - width g) \<and> is_int (size_height v - height g)"
    using calculateClampedOffsets_defined [of g v]
    by (auto simp: calculateAbsolutePosition_eq split: option.splits)
next
  fix x y
  assume r: "calculateAbsolutePosition g v = Some (x, y)"
  then obtain cx cy where c: "calculateClampedOffsets g v = Some (cx, cy)"
    and xy: "(x, y) = (case anchor g of
                  TopLeft \<Rightarrow> (cx, cy)
                | TopRight \<Rightarrow> (size_width v - width g - cx, cy)
                | BottomLeft \<Rightarrow> (cx, size_height v - height g - cy)
                | BottomRight \<Rightarrow>
                    (size_width v - width g - cx, size_height v - height g - cy))"
    by (auto simp: calculateAbsolutePosition_eq split: option.splits)
  note f = calculateClampedOffsets_Some [OF c]
  have bdx: "0 \<le> cx" "cx \<le> size_width v - width g"
    using std_clamp_bounds [of 0 "max 0 (size_width v - width g)" "offset_x g"] f(1) assms(1)
    by simp_all
  have bdy: "0 \<le> cy" "cy \<le> size_height v - height g"
    using std_clamp_bounds [of 0 "max 0 (size_height v - height g)" "offset_y g"] f(2) assms(2)
    by simp_all
  show "0 \<le> x" "x + width g \<le> size_width v" "0 \<le> y" "y + height g \<le> size_height v"
    using xy bdx bdy by (cases "anchor g"; simp)+
qed

theorem overlay_stays_inside_viewport_witness:
  "(200::int) \<le> 1920 \<and> (200::int) \<le> 1080 \<and>
   calculateAbsolutePosition
     \<lparr>width = 200, height = 200, offset_x = 5000, offset_y = - 3, anchor = TopRight\<rparr>
     \<lparr>size_width = 1920, size_height = 1080\<rparr> = Some (0, 0) \<and>
   (0::int) + 200 \<le> 1920 \<and> (0::int) + 200 \<le> 1080"
  using overlay_stays_inside_viewport
    [of "\<lparr>width = 200, height = 200, offset_x = 5000, offset_y = - 3, anchor = TopRight\<rparr>"
        "\<lparr>size_width = 1920, size_height = 1080\<rparr>"]
  by (simp add: calculateAbsolutePosition_def calculateClampedOffsets_def from_far_edge_def
      int_sub_def is_int_def INT_MIN_def INT_MAX_def std_max_def std_clamp_def)

section \<open>ScopedPixelBuffer: one unlock per lock\<close>

lemma locks_append: "locks i (xs @ ys) = locks i xs + locks i ys"
  by (simp add: locks_def)

lemma unlocks_append: "unlocks i (xs @ ys) = unlocks i xs + unlocks i ys"
  by (simp add: unlocks_def)

lemma locks_single:
  "locks i [BufferLock j] = (if j = i then 1 else 0)" "locks i [BufferUnlock j] = 0"
  by (simp_all add: locks_def)

lemma unlocks_single:
  "unlocks i [BufferUnlock j] = (if j = i then 1 else 0)" "unlocks i [BufferLock j] = 0"
  by (simp_all add: unlocks_def)

lemma holders_subset: "holders i s \<subseteq> dom (live s)"
  by (auto simp: holders_def)

lemma finite_holders: "finite (dom (live s)) \<Longrightarrow> finite (holders i s)"
  using holders_subset finite_subset by blast

lemma balanced_no_guards: "balanced no_guards"
  by (simp add: balanced_def no_guards_def holders_def locks_def unlocks_def)

lemma holders_Construct:
  assumes "live s a = None"
  shows "holders i \<lparr>live = (live s)(a \<mapsto> \<lparr>buffer = b\<rparr>), calls = tr\<rparr> =
     (case b of None \<Rightarrow> holders i s
      | Some hb \<Rightarrow> if buffer_id hb = i then insert a (holders i s) else holders i s)"
  using assms by (auto simp: holders_def split: option.splits)

lemma not_holder: "live s a = None \<Longrightarrow> a \<notin> holders i s"
  by (simp add: holders_def)

lemma balanced_Construct:
  assumes "balanced s" and "guard_step (Construct a b) s = Some s'"
  shows "balanced s'"
proof -
  from assms(2) have a: "live s a = None"
    and s': "s' = \<lparr>live = (live s)(a \<mapsto> \<lparr>buffer = b\<rparr>),
                 calls = (case b of None \<Rightarrow> calls s | Some hb \<Rightarrow> calls s @ [BufferLock (buffer_id hb)])\<rparr>"
    by (auto simp: ScopedPixelBuffer_ctor_def split: option.splits)
  have fin: "finite (dom (live s))" using assms(1) by (simp add: balanced_def)
  have "locks i (calls s') = unlocks i (calls s') + card (holders i s')" for i
  proof -
    have b: "locks i (calls s) = unlocks i (calls s) + card (holders i s)"
      using assms(1) by (simp add: balanced_def)
    show ?thesis
      using b finite_holders [OF fin, of i] not_holder [OF a, of i]
      by (simp add: s' holders_Construct [OF a] locks_append unlocks_append locks_single
          unlocks_single split: option.splits)
  qed
  moreover have "finite (dom (live s'))" using fin by (simp add: s')
  ultimately show ?thesis by (simp add: balanced_def)
qed

lemma holders_move:
  assumes "a \<noteq> src" and "live s src = Some other"
  shows "holders i \<lparr>live = (live s)(src \<mapsto> \<lparr>buffer = None\<rparr>, a \<mapsto> \<lparr>buffer = buffer other\<rparr>), calls = tr\<rparr> =
     (if src \<in> holders i s then insert a (holders i s - {src}) else holders i s - {a})"
  using assms by (auto simp: holders_def split: if_splits)

lemma card_mem_pos: "finite H \<Longrightarrow> x \<in> H \<Longrightarrow> Suc (card H - Suc 0) = card H"
  by (cases "card H") auto

lemma card_swap:
  assumes "finite H" and "src \<in> H" and "a \<noteq> src"
  shows "card (insert a (H - {src})) = (if a \<in> H then card H - 1 else card H)"
  using assms card_mem_pos [of H src]
  by (auto simp: card_insert_if card_Diff_singleton_if)

lemma balanced_MoveConstruct:
  assumes "balanced s" and "guard_step (MoveConstruct a src) s = Some s'"
  shows "balanced s'"
proof -
  from assms(2) obtain other where a: "live s a = None" and src: "live s src = Some other"
    and s': "s' = \<lparr>live = (live s)(src \<mapsto> \<lparr>buffer = None\<rparr>, a \<mapsto> \<lparr>buffer = buffer other\<rparr>),
                 calls = calls s\<rparr>"
    by (auto simp: ScopedPixelBuffer_move_def split: option.splits)
  have ne: "a \<noteq> src" using a src by auto
  have fin: "finite (dom (live s))" using assms(1) by (simp add: balanced_def)
  have "locks i (calls s') = unlocks i (calls s') + card (holders i s')" for i
  proof -
    have b: "locks i (calls s) = unlocks i (calls s) + card (holders i s)"
      using assms(1) by (simp add: balanced_def)
    have "card (holders i s') = card (holders i s)"
      using finite_holders [OF fin, of i] not_holder [OF a, of i] ne
        card_mem_pos [of "holders i s" src]
      by (simp add: s' holders_move [OF ne src] card_swap)
    then show ?thesis using b by (simp add: s')
  qed
  moreover have "finite (dom (live s'))" using fin by (simp add: s')
  ultimately show ?thesis by (simp add: balanced_def)
qed

lemma holder_iff:
  "live s a = Some g \<Longrightarrow> a \<in> holders i s \<longleftrightarrow> (\<exists>hb. buffer g = Some hb \<and> buffer_id hb = i)"
  by (simp add: holders_def)

lemma balanced_MoveAssign:
  assumes "balanced s" and "guard_step (MoveAssign a src) s = Some s'"
  shows "balanced s'"
proof (cases "a = src")
  case True
  with assms show ?thesis by (auto split: option.splits)
next
  case ne: False
  from assms(2) ne obtain this other where a: "live s a = Some this"
    and src: "live s src = Some other"
    and s': "s' = \<lparr>live = (live s)(src \<mapsto> \<lparr>buffer = None\<rparr>, a \<mapsto> \<lparr>buffer = buffer other\<rparr>),
                 calls = (case buffer this of None \<Rightarrow> calls s
                          | Some hb \<Rightarrow> calls s @ [BufferUnlock (buffer_id hb)])\<rparr>"
    by (auto simp: ScopedPixelBuffer_move_assign_def split: option.splits)
  have fin: "finite (dom (live s))" using assms(1) by (simp add: balanced_def)
  have "locks i (calls s') = unlocks i (calls s') + card (holders i s')" for i
  proof -
    have b: "locks i (calls s) = unlocks i (calls s) + card (holders i s)"
      using assms(1) by (simp add: balanced_def)
    have f: "finite (holders i s)" by (rule finite_holders [OF fin])
    show ?thesis
    proof (cases "a \<in> holders i s")
      case True
      then obtain hb where hb: "buffer this = Some hb" "buffer_id hb = i"
        using holder_iff [OF a] by auto
      have "card (holders i s') + 1 = card (holders i s)"
        using f True ne card_mem_pos [OF f True]
        by (auto simp: s' holders_move [OF ne src] card_swap card_Diff_singleton_if
            simp del: insert_Diff_single)
      then show ?thesis using b hb
        by (simp add: s' locks_append unlocks_append locks_single unlocks_single)
    next
      case False
      then have nb: "\<And>hb. buffer this = Some hb \<Longrightarrow> buffer_id hb \<noteq> i"
        using holder_iff [OF a] by auto
      have "card (holders i s') = card (holders i s)"
        using f False ne card_mem_pos [of "holders i s" src]
        by (auto simp: s' holders_move [OF ne src] card_swap)
      then show ?thesis using b nb
        by (auto simp: s' locks_append unlocks_append locks_single unlocks_single
            split: option.splits)
    qed
  qed
  moreover have "finite (dom (live s'))" using fin by (simp add: s')
  ultimately show ?thesis by (simp add: balanced_def)
qed

lemma holders_Destroy:
  "holders i \<lparr>live = (live s)(a := None), calls = tr\<rparr> = holders i s - {a}"
  by (auto simp: holders_def)

lemma balanced_Destroy:
  assumes "balanced s" and "guard_step (Destroy a) s = Some s'"
  shows "balanced s'"
proof -
  from assms(2) obtain this where a: "live s a = Some this"
    and s': "s' = \<lparr>live = (live s)(a := None),
                 calls = (case buffer this of None \<Rightarrow> calls s
                          | Some hb \<Rightarrow> calls s @ [BufferUnlock (buffer_id hb)])\<rparr>"
    by (auto simp: ScopedPixelBuffer_dtor_def split: option.splits)
  have fin: "finite (dom (live s))" using assms(1) by (simp add: balanced_def)
  have "locks i (calls s') = unlocks i (calls s') + card (holders i s')" for i
  proof -
    have b: "locks i (calls s) = unlocks i (calls s) + card (holders i s)"
      using assms(1) by (simp add: balanced_def)
    have f: "finite (holders i s)" by (rule finite_holders [OF fin])
    show ?thesis
    proof (cases "a \<in> holders i s")
      case True
      then obtain hb where hb: "buffer this = Some hb" "buffer_id hb = i"
        using holder_iff [OF a] by auto
      have "card (holders i s') + 1 = card (holders i s)"
        using f True card_mem_pos [OF f True] by (simp add: s' holders_Destroy)
      then show ?thesis using b hb
        by (simp add: s' locks_append unlocks_append locks_single unlocks_single)
    next
      case False
      then have nb: "\<And>hb. buffer this = Some hb \<Longrightarrow> buffer_id hb \<noteq> i"
        using holder_iff [OF a] by auto
      have "card (holders i s') = card (holders i s)"
        using False by (simp add: s' holders_Destroy)
      then show ?thesis using b nb
        by (auto simp: s' locks_append unlocks_append locks_single unlocks_single
            split: option.splits)
    qed
  qed
  moreover have "finite (dom (live s'))" using fin by (simp add: s')
  ultimately show ?thesis by (simp add: balanced_def)
qed

lemma balanced_step: "balanced s \<Longrightarrow> guard_step x s = Some s' \<Longrightarrow> balanced s'"
  by (cases x)
    (blast intro: balanced_Construct balanced_MoveConstruct balanced_MoveAssign balanced_Destroy)+

lemma balanced_run: "balanced s \<Longrightarrow> run_guards xs s = Some s' \<Longrightarrow> balanced s'"
proof (induction xs arbitrary: s)
  case Nil
  then show ?case by simp
next
  case (Cons x xs)
  then show ?case by (auto split: option.splits dest: balanced_step)
qed

text \<open>
  C1. After any well-formed sequence of constructions, moves, move assignments and
  destructions of guards, every buffer has been locked exactly as often as it has been
  unlocked plus the number of live guards holding it; so once every guard has been
  destroyed, each lock has been matched by exactly one unlock. A guard constructed over
  a non-null buffer and destroyed makes one lock and one unlock. A move from a guard that
  holds a buffer into another guard locks nothing (a move construction makes no call at
  all; a move assignment unlocks what the target held before), the destruction of the
  moved-from guard then makes no call, and the destruction of the moved-to guard makes
  exactly one unlock of the moved buffer.
\<close>

theorem scoped_pixel_buffer_unlocks_once:
  assumes "run_guards ops no_guards = Some s"
  shows "locks i (calls s) = unlocks i (calls s) + card (holders i s) \<and>
         (live s = (\<lambda>a. None) \<longrightarrow> unlocks i (calls s) = locks i (calls s)) \<and>
         (\<forall>a hb s1 s2. guard_step (Construct a (Some hb)) s = Some s1 \<and>
              guard_step (Destroy a) s1 = Some s2 \<longrightarrow>
              calls s2 = calls s @ [BufferLock (buffer_id hb), BufferUnlock (buffer_id hb)]) \<and>
         (\<forall>dst src g hb s1. live s src = Some g \<and> buffer g = Some hb \<and> dst \<noteq> src \<and>
              (guard_step (MoveConstruct dst src) s = Some s1 \<or>
               guard_step (MoveAssign dst src) s = Some s1) \<longrightarrow>
              locks i (calls s1) = locks i (calls s) \<and>
              (guard_step (MoveConstruct dst src) s = Some s1 \<longrightarrow> calls s1 = calls s) \<and>
              (\<exists>s2. guard_step (Destroy src) s1 = Some s2 \<and> calls s2 = calls s1) \<and>
              (\<exists>s3. guard_step (Destroy dst) s1 = Some s3 \<and>
                     calls s3 = calls s1 @ [BufferUnlock (buffer_id hb)]))"
proof (intro conjI allI impI)
  have b: "balanced s"
    using balanced_run [OF balanced_no_guards assms] .
  then show eq: "locks i (calls s) = unlocks i (calls s) + card (holders i s)"
    by (simp add: balanced_def)
  show "unlocks i (calls s) = locks i (calls s)" if "live s = (\<lambda>a. None)"
    using eq that by (simp add: holders_def)
next
  fix a hb s1 s2
  assume "guard_step (Construct a (Some hb)) s = Some s1 \<and> guard_step (Destroy a) s1 = Some s2"
  then show "calls s2 = calls s @ [BufferLock (buffer_id hb), BufferUnlock (buffer_id hb)]"
    by (auto simp: ScopedPixelBuffer_ctor_def ScopedPixelBuffer_dtor_def split: option.splits)
next
  fix dst src g hb s1
  assume h: "live s src = Some g \<and> buffer g = Some hb \<and> dst \<noteq> src \<and>
              (guard_step (MoveConstruct dst src) s = Some s1 \<or>
               guard_step (MoveAssign dst src) s = Some s1)"
  then have ne: "dst \<noteq> src" by simp
  from h obtain new where
    s1: "s1 = \<lparr>live = (live s)(src \<mapsto> \<lparr>buffer = None\<rparr>, dst \<mapsto> \<lparr>buffer = Some hb\<rparr>),
               calls = calls s @ new\<rparr>"
    and new: "locks i new = 0"
    and mc: "guard_step (MoveConstruct dst src) s = Some s1 \<longrightarrow> new = []"
    by (auto simp: ScopedPixelBuffer_move_def ScopedPixelBuffer_move_assign_def locks_def
        split: option.splits if_splits)
  show "locks i (calls s1) = locks i (calls s)"
    using new by (simp add: s1 locks_append)
  show "calls s1 = calls s" if "guard_step (MoveConstruct dst src) s = Some s1"
    using that mc by (simp add: s1)
  show "\<exists>s2. guard_step (Destroy src) s1 = Some s2 \<and> calls s2 = calls s1"
    using ne by (simp add: s1 ScopedPixelBuffer_dtor_def)
  show "\<exists>s3. guard_step (Destroy dst) s1 = Some s3 \<and>
                     calls s3 = calls s1 @ [BufferUnlock (buffer_id hb)]"
    using ne by (simp add: s1 ScopedPixelBuffer_dtor_def)
qed

theorem scoped_pixel_buffer_unlocks_once_witness:
  "(\<exists>s. run_guards
          [Construct 0 (Some \<lparr>buffer_id = 7, lock_data = Some 4096\<rparr>), MoveConstruct 1 0,
           Destroy 0, Destroy 1] no_guards = Some s \<and>
        live s = (\<lambda>a. None) \<and>
        calls s = [BufferLock 7, BufferUnlock 7] \<and>
        unlocks 7 (calls s) = locks 7 (calls s) \<and> locks 7 (calls s) = 1) \<and>
   (\<exists>s s1. run_guards [Construct 0 (Some \<lparr>buffer_id = 7, lock_data = Some 4096\<rparr>)] no_guards = Some s \<and>
        live s 0 = Some \<lparr>buffer = Some \<lparr>buffer_id = 7, lock_data = Some 4096\<rparr>\<rparr> \<and>
        guard_step (MoveConstruct 1 0) s = Some s1 \<and>
        calls s1 = calls s \<and>
        (\<exists>s2. guard_step (Destroy 0) s1 = Some s2 \<and> calls s2 = calls s) \<and>
        (\<exists>s3. guard_step (Destroy 1) s1 = Some s3 \<and> calls s3 = calls s @ [BufferUnlock 7]))"
proof
  let ?ops = "[Construct 0 (Some \<lparr>buffer_id = 7, lock_data = Some 4096\<rparr>), MoveConstruct 1 0,
           Destroy 0, Destroy 1]"
  let ?s = "\<lparr>live = (\<lambda>a. None), calls = [BufferLock 7, BufferUnlock 7]\<rparr>"
  have l: "(\<lambda>a. None)(0 := None, Suc 0 := None) = (\<lambda>a::nat. None::ScopedPixelBuffer option)"
    by (simp add: fun_eq_iff)
  have r: "run_guards ?ops no_guards = Some ?s"
    by (simp add: no_guards_def ScopedPixelBuffer_ctor_def ScopedPixelBuffer_move_def
        ScopedPixelBuffer_dtor_def l)
  from scoped_pixel_buffer_unlocks_once [OF r, of 7, THEN conjunct2, THEN conjunct1]
  have "unlocks 7 (calls ?s) = locks 7 (calls ?s)" by simp
  then show "\<exists>s. run_guards ?ops no_guards = Some s \<and> live s = (\<lambda>a. None) \<and>
        calls s = [BufferLock 7, BufferUnlock 7] \<and>
        unlocks 7 (calls s) = locks 7 (calls s) \<and> locks 7 (calls s) = 1"
    using r by (simp add: locks_def)
next
  let ?hb = "\<lparr>buffer_id = 7, lock_data = Some 4096\<rparr>"
  let ?s = "\<lparr>live = [0 \<mapsto> \<lparr>buffer = Some ?hb\<rparr>], calls = [BufferLock 7]\<rparr>"
  let ?s1 = "\<lparr>live = [0 \<mapsto> \<lparr>buffer = None\<rparr>, 1 \<mapsto> \<lparr>buffer = Some ?hb\<rparr>], calls = [BufferLock 7]\<rparr>"
  have r: "run_guards [Construct 0 (Some ?hb)] no_guards = Some ?s"
    by (simp add: no_guards_def ScopedPixelBuffer_ctor_def)
  have m: "guard_step (MoveConstruct 1 0) ?s = Some ?s1"
    by (simp add: ScopedPixelBuffer_move_def)
  have g: "live ?s 0 = Some \<lparr>buffer = Some ?hb\<rparr>" by simp
  note t = scoped_pixel_buffer_unlocks_once [OF r, of 7, THEN conjunct2, THEN conjunct2,
      THEN conjunct2, rule_format, of 0 "\<lparr>buffer = Some ?hb\<rparr>" ?hb 1 ?s1]
  have "locks 7 (calls ?s1) = locks 7 (calls ?s) \<and>
        (guard_step (MoveConstruct 1 0) ?s = Some ?s1 \<longrightarrow> calls ?s1 = calls ?s) \<and>
        (\<exists>s2. guard_step (Destroy 0) ?s1 = Some s2 \<and> calls s2 = calls ?s1) \<and>
        (\<exists>s3. guard_step (Destroy 1) ?s1 = Some s3 \<and>
           calls s3 = calls ?s1 @ [BufferUnlock (buffer_id ?hb)])"
  proof (rule t)
    show "live ?s 0 = Some \<lparr>buffer = Some ?hb\<rparr> \<and>
      buffer \<lparr>buffer = Some ?hb\<rparr> = Some ?hb \<and> (1::nat) \<noteq> 0 \<and>
      (guard_step (MoveConstruct 1 0) ?s = Some ?s1 \<or>
       guard_step (MoveAssign 1 0) ?s = Some ?s1)"
      using g m by simp
  qed
  then show "\<exists>s s1. run_guards [Construct 0 (Some ?hb)] no_guards = Some s \<and>
        live s 0 = Some \<lparr>buffer = Some ?hb\<rparr> \<and>
        guard_step (MoveConstruct 1 0) s = Some s1 \<and>
        calls s1 = calls s \<and>
        (\<exists>s2. guard_step (Destroy 0) s1 = Some s2 \<and> calls s2 = calls s) \<and>
        (\<exists>s3. guard_step (Destroy 1) s1 = Some s3 \<and> calls s3 = calls s @ [BufferUnlock 7])"
    using r m g by (intro exI [of _ ?s] exI [of _ ?s1]) simp
qed

section \<open>OverlayPanel: texture size and visibility\<close>

lemma word_max_one: "max (w::uint) 1 = (if w = 0 then 1 else w)"
proof (cases "w = 0")
  case True
  then show ?thesis by simp
next
  case False
  then have "1 \<le> w" by (simp add: word_le_nat_alt unat_gt_0 Suc_le_eq)
  then show ?thesis using False by (simp add: max_def)
qed

lemma updateTextureSize_invalid:
  "panel p = None \<Longrightarrow> updateTextureSize w h (p, tr) = Some (p, tr)"
  by (simp add: updateTextureSize_def)

lemma updateTextureSize_result:
  assumes "panel p \<noteq> None" and "material p = Some mat"
  shows "updateTextureSize w h (p, tr) =
     (case texture p of
        None \<Rightarrow>
          Some (p\<lparr>material := Some (mat\<lparr>textureUnitStates := textureUnitStates mat @ [name p @ ''Texture''],
                                         transparent_alpha := True\<rparr>),
                  texture := Some \<lparr>getName = name p @ ''Texture'', getWidth = max w 1,
                                   getHeight = max h 1\<rparr>\<rparr>,
                tr @ [TextureCreateManual (name p @ ''Texture'') (max w 1) (max h 1)])
      | Some t \<Rightarrow>
          if getWidth t = max w 1 \<and> getHeight t = max h 1 then Some (p, tr)
          else
            Some (p\<lparr>material := Some (mat\<lparr>textureUnitStates := [name p @ ''Texture''],
                                           transparent_alpha := True\<rparr>),
                    texture := Some \<lparr>getName = name p @ ''Texture'', getWidth = max w 1,
                                     getHeight = max h 1\<rparr>\<rparr>,
                  tr @ [TextureRemove (getName t),
                        TextureCreateManual (name p @ ''Texture'') (max w 1) (max h 1)]))"
  using assms
  by (auto simp: updateTextureSize_def word_max_one Let_def split: option.splits)

lemma max_one_nonzero: "max (w::uint) 1 \<noteq> 0"
  by (simp add: word_max_one)

lemma valid_resource_ctor: "valid_resource (OverlayPanel_ctor (Some mgr) nm)"
  by (simp add: valid_resource_def OverlayPanel_ctor_def Let_def)

lemma ctor_texture: "texture (OverlayPanel_ctor mgr nm) = None"
  by (simp add: OverlayPanel_ctor_def Let_def split: option.splits)

lemma updateTextureSize_valid:
  assumes "valid_resource p"
  shows "\<exists>p' new t. updateTextureSize w h (p, tr) = Some (p', tr @ new) \<and> valid_resource p' \<and>
           texture p' = Some t \<and> getWidth t = max w 1 \<and> getHeight t = max h 1 \<and>
           list_all nonzero_create new \<and> name p' = name p \<and> overlay p' = overlay p"
proof -
  from assms obtain mat where m: "material p = Some mat" and pn: "panel p \<noteq> None"
    and ov: "overlay p \<noteq> None"
    by (auto simp: valid_resource_def)
  show ?thesis
  proof (cases "texture p")
    case None
    then show ?thesis
      using pn ov
      by (simp add: updateTextureSize_result [OF pn m] valid_resource_def nonzero_create_def
          max_one_nonzero)
  next
    case (Some t)
    show ?thesis
    proof (cases "getWidth t = max w 1 \<and> getHeight t = max h 1")
      case True
      have "updateTextureSize w h (p, tr) = Some (p, tr @ [])"
        using Some True by (simp add: updateTextureSize_result [OF pn m])
      then show ?thesis using assms Some True by (intro exI [of _ p] exI [of _ "[]"]) simp
    next
      case False
      then show ?thesis
        using pn ov Some
        by (auto simp: updateTextureSize_result [OF pn m] valid_resource_def nonzero_create_def
            max_one_nonzero)
    qed
  qed
qed

lemma panel_step_valid:
  assumes "valid_resource p"
  shows "\<exists>p' new. panel_step x (p, tr) = Some (p', tr @ new) \<and> valid_resource p' \<and>
           list_all nonzero_create new \<and>
           (texture p' \<noteq> None \<longleftrightarrow> texture p \<noteq> None \<or> is_resize x) \<and>
           (isVisible p' \<longrightarrow> isVisible p \<or> is_show x)"
proof (cases x)
  case Show
  then show ?thesis using assms
    by (auto simp: OverlayPanel_show_def valid_resource_def is_resize_def is_show_def)
next
  case Hide
  then show ?thesis using assms
    by (auto simp: OverlayPanel_hide_def valid_resource_def is_resize_def isVisible_def
        Overlay_hide_def)
next
  case (SetPosition x y)
  then show ?thesis using assms
    by (auto simp: setPosition_def valid_resource_def is_resize_def isVisible_def)
next
  case (SetDimensions w h)
  then show ?thesis using assms
    by (auto simp: setDimensions_def valid_resource_def is_resize_def isVisible_def)
next
  case (UpdateTextureSize w h)
  from updateTextureSize_valid [OF assms, of w h tr]
  show ?thesis using UpdateTextureSize by (auto simp: is_resize_def isVisible_def)
next
  case (GetPixelBuffer hw)
  then show ?thesis using assms
    by (auto simp: getPixelBuffer_def ScopedPixelBuffer_ctor_def ScopedPixelBuffer_dtor_def
        is_resize_def nonzero_create_def split: option.splits)
qed

lemma run_panel_valid:
  assumes "valid_resource p"
  shows "\<exists>p' new. run_panel xs (p, tr) = Some (p', tr @ new) \<and> valid_resource p' \<and>
           list_all nonzero_create new \<and>
           (texture p' \<noteq> None \<longleftrightarrow> texture p \<noteq> None \<or> list_ex is_resize xs) \<and>
           (isVisible p' \<longrightarrow> isVisible p \<or> list_ex is_show xs)"
  using assms
proof (induction xs arbitrary: p tr)
  case Nil
  then show ?case by simp
next
  case (Cons x xs)
  from panel_step_valid [OF Cons.prems, of x tr]
  obtain p1 new1 where s: "panel_step x (p, tr) = Some (p1, tr @ new1)" and v: "valid_resource p1"
    and n: "list_all nonzero_create new1"
    and t: "texture p1 \<noteq> None \<longleftrightarrow> texture p \<noteq> None \<or> is_resize x"
    and vis: "isVisible p1 \<longrightarrow> isVisible p \<or> is_show x"
    by blast
  from Cons.IH [OF v, of "tr @ new1"]
  obtain p2 new2 where r: "run_panel xs (p1, tr @ new1) = Some (p2, (tr @ new1) @ new2)"
    and v2: "valid_resource p2" and n2: "list_all nonzero_create new2"
    and t2: "texture p2 \<noteq> None \<longleftrightarrow> texture p1 \<noteq> None \<or> list_ex is_resize xs"
    and vis2: "isVisible p2 \<longrightarrow> isVisible p1 \<or> list_ex is_show xs"
    by blast
  have "run_panel (x # xs) (p, tr) = Some (p2, tr @ (new1 @ new2))"
    using s r by simp
  moreover have "list_all nonzero_create (new1 @ new2)" using n n2 by simp
  moreover have "texture p2 \<noteq> None \<longleftrightarrow> texture p \<noteq> None \<or> list_ex is_resize (x # xs)"
    using t t2 by auto
  moreover have "isVisible p2 \<longrightarrow> isVisible p \<or> list_ex is_show (x # xs)"
    using vis vis2 by auto
  ultimately show ?case using v2 by blast
qed

lemma creations_append: "creations (xs @ ys) = creations xs + creations ys"
  by (simp add: creations_def)

lemma removals_append: "removals (xs @ ys) = removals xs + removals ys"
  by (simp add: removals_def)

lemma count_new_texture:
  "creations [TextureCreateManual n w h] = 1" "removals [TextureCreateManual n w h] = 0"
  "creations [TextureRemove m, TextureCreateManual n w h] = 1"
  "removals [TextureRemove m, TextureCreateManual n w h] = 1"
  by (simp_all add: creations_def removals_def is_create_def is_remove_def)

lemma getPixelBuffer_no_texture:
  "texture p = None \<Longrightarrow> getPixelBuffer hw p tr = ScopedPixelBuffer_ctor None tr"
  by (simp add: getPixelBuffer_def)

lemma isVisible_ctor: "\<not> isVisible (OverlayPanel_ctor mgr nm)"
  by (simp add: isVisible_def OverlayPanel_ctor_def Overlay_hide_def Let_def split: option.splits)

text \<open>
  C5. On a validly constructed resource, \<open>updateTextureSize\<close> called twice with the same
  \<open>(w, h)\<close> creates a texture exactly once when the resource has no texture, or one of
  another size, before the first call, and the second call changes nothing and makes no
  call. The dimensions compared are the requested ones after the floor to 1,
  \<open>(max(w,1), max(h,1))\<close>: a call whose dimensions differ from the current texture's
  removes the old texture once and creates the new one once, and a call whose dimensions
  are the current texture's does nothing.
\<close>

theorem resize_idempotent:
  assumes "valid_resource p"
  shows "\<exists>p1 tr1.
           updateTextureSize w h (p, tr) = Some (p1, tr1) \<and>
           updateTextureSize w h (p1, tr1) = Some (p1, tr1) \<and>
           has_size p1 (max w 1) (max h 1) \<and>
           (has_size p (max w 1) (max h 1) \<longrightarrow> p1 = p \<and> tr1 = tr) \<and>
           (\<not> has_size p (max w 1) (max h 1) \<longrightarrow>
              creations tr1 = creations tr + 1 \<and>
              removals tr1 = removals tr + (if texture p = None then 0 else 1) \<and>
              tr1 = tr @ (case texture p of None \<Rightarrow> [] | Some t \<Rightarrow> [TextureRemove (getName t)])
                       @ [TextureCreateManual (name p @ ''Texture'') (max w 1) (max h 1)]) \<and>
           (texture p = None \<longrightarrow>
              creations tr1 = creations tr + 1 \<and> removals tr1 = removals tr)"
proof -
  from assms obtain mat where m: "material p = Some mat" and pn: "panel p \<noteq> None"
    by (auto simp: valid_resource_def)
  from updateTextureSize_valid [OF assms, of w h tr]
  obtain p1 new t where r: "updateTextureSize w h (p, tr) = Some (p1, tr @ new)"
    and v1: "valid_resource p1" and t1: "texture p1 = Some t"
    and d: "getWidth t = max w 1" "getHeight t = max h 1"
    by blast
  from v1 obtain mat1 where m1: "material p1 = Some mat1" and pn1: "panel p1 \<noteq> None"
    by (auto simp: valid_resource_def)
  have again: "updateTextureSize w h (p1, tr @ new) = Some (p1, tr @ new)"
    using t1 d by (simp add: updateTextureSize_result [OF pn1 m1])
  have size1: "has_size p1 (max w 1) (max h 1)"
    using t1 d by (simp add: has_size_def)
  have same: "p1 = p \<and> tr @ new = tr" if "has_size p (max w 1) (max h 1)"
    using that r
    by (auto simp: has_size_def updateTextureSize_result [OF pn m] split: option.splits)
  have diff: "creations (tr @ new) = creations tr + 1 \<and>
      removals (tr @ new) = removals tr + (if texture p = None then 0 else 1) \<and>
      tr @ new = tr @ (case texture p of None \<Rightarrow> [] | Some t \<Rightarrow> [TextureRemove (getName t)])
                       @ [TextureCreateManual (name p @ ''Texture'') (max w 1) (max h 1)]"
    if "\<not> has_size p (max w 1) (max h 1)"
    using that r
    by (auto simp: has_size_def updateTextureSize_result [OF pn m] creations_append
        removals_append count_new_texture split: option.splits if_splits)
  have fresh: "creations (tr @ new) = creations tr + 1 \<and> removals (tr @ new) = removals tr"
    if "texture p = None"
  proof -
    have "\<not> has_size p (max w 1) (max h 1)" using that by (simp add: has_size_def)
    from diff [OF this] that show ?thesis
      by (simp add: creations_append removals_append count_new_texture)
  qed
  show ?thesis
  proof (intro exI [of _ p1] exI [of _ "tr @ new"] conjI)
    show "updateTextureSize w h (p, tr) = Some (p1, tr @ new)" by (rule r)
    show "updateTextureSize w h (p1, tr @ new) = Some (p1, tr @ new)" by (rule again)
    show "has_size p1 (max w 1) (max h 1)" by (rule size1)
    show "has_size p (max w 1) (max h 1) \<longrightarrow> p1 = p \<and> tr @ new = tr"
      using same by blast
    show "\<not> has_size p (max w 1) (max h 1) \<longrightarrow>
      creations (tr @ new) = creations tr + 1 \<and>
      removals (tr @ new) = removals tr + (if texture p = None then 0 else 1) \<and>
      tr @ new = tr @ (case texture p of None \<Rightarrow> [] | Some t \<Rightarrow> [TextureRemove (getName t)])
                       @ [TextureCreateManual (name p @ ''Texture'') (max w 1) (max h 1)]"
      using diff by blast
    show "texture p = None \<longrightarrow>
      creations (tr @ new) = creations tr + 1 \<and> removals (tr @ new) = removals tr"
      using fresh by blast
  qed
qed

theorem resize_idempotent_witness:
  "valid_resource (OverlayPanel_ctor (Some \<lparr>new_overlay_visible = True\<rparr>) ''HUD'') \<and>
   \<not> has_size (OverlayPanel_ctor (Some \<lparr>new_overlay_visible = True\<rparr>) ''HUD'') (max 200 1) (max 100 1) \<and>
   (\<exists>p1 tr1.
      updateTextureSize 200 100 (OverlayPanel_ctor (Some \<lparr>new_overlay_visible = True\<rparr>) ''HUD'', []) =
        Some (p1, tr1) \<and>
      updateTextureSize 200 100 (p1, tr1) = Some (p1, tr1) \<and>
      tr1 = [TextureCreateManual ''HUDTexture'' 200 100] \<and> creations tr1 = 1)"
proof -
  let ?p = "OverlayPanel_ctor (Some \<lparr>new_overlay_visible = True\<rparr>) ''HUD''"
  have v: "valid_resource ?p" by (rule valid_resource_ctor)
  have n: "\<not> has_size ?p (max 200 1) (max 100 1)"
    by (simp add: has_size_def ctor_texture)
  have nm: "name ?p = ''HUD''" by (simp add: OverlayPanel_ctor_def Let_def)
  have m: "max (200::uint) 1 = 200" "max (100::uint) 1 = 100" by (simp_all add: word_max_one)
  from resize_idempotent [OF v, of 200 100 "[]"] n
  obtain p1 tr1 where "updateTextureSize 200 100 (?p, []) = Some (p1, tr1)"
    and "updateTextureSize 200 100 (p1, tr1) = Some (p1, tr1)"
    and "creations tr1 = creations [] + 1"
    and "tr1 = [] @ (case texture ?p of None \<Rightarrow> [] | Some t \<Rightarrow> [TextureRemove (getName t)])
                       @ [TextureCreateManual (name ?p @ ''Texture'') (max 200 1) (max 100 1)]"
    by blast
  then show ?thesis using v n by (simp add: ctor_texture nm m creations_def)
qed

text \<open>
  C6. On a validly constructed resource, the texture that exists after
  \<open>updateTextureSize w h\<close> has width \<open>max(w,1)\<close> and height \<open>max(h,1)\<close>, and no sequence of
  operations ever creates a texture of zero width or height.
\<close>

theorem resize_floors_to_one:
  assumes "valid_resource p"
  shows "(\<exists>p' new t.
            updateTextureSize w h (p, tr) = Some (p', tr @ new) \<and> texture p' = Some t \<and>
            getWidth t = max w 1 \<and> getHeight t = max h 1 \<and> getWidth t \<noteq> 0 \<and> getHeight t \<noteq> 0 \<and>
            list_all nonzero_create new) \<and>
         (\<forall>xs. \<exists>q new. run_panel xs (p, tr) = Some (q, tr @ new) \<and> list_all nonzero_create new)"
proof
  from updateTextureSize_valid [OF assms, of w h tr]
  obtain p' new t where "updateTextureSize w h (p, tr) = Some (p', tr @ new)"
    "texture p' = Some t" "getWidth t = max w 1" "getHeight t = max h 1"
    "list_all nonzero_create new"
    by blast
  then show "\<exists>p' new t.
            updateTextureSize w h (p, tr) = Some (p', tr @ new) \<and> texture p' = Some t \<and>
            getWidth t = max w 1 \<and> getHeight t = max h 1 \<and> getWidth t \<noteq> 0 \<and> getHeight t \<noteq> 0 \<and>
            list_all nonzero_create new"
    using max_one_nonzero by metis
next
  show "\<forall>xs. \<exists>q new. run_panel xs (p, tr) = Some (q, tr @ new) \<and> list_all nonzero_create new"
    using run_panel_valid [OF assms] by blast
qed

theorem resize_floors_to_one_witness:
  "valid_resource (OverlayPanel_ctor (Some \<lparr>new_overlay_visible = True\<rparr>) ''HUD'') \<and>
   updateTextureSize 0 300 (OverlayPanel_ctor (Some \<lparr>new_overlay_visible = True\<rparr>) ''HUD'', []) =
     Some (OverlayPanel_ctor (Some \<lparr>new_overlay_visible = True\<rparr>) ''HUD''
             \<lparr>material := Some \<lparr>material_getName = ''HUDMaterial'',
                                textureUnitStates = [''HUDTexture''], transparent_alpha = True\<rparr>,
              texture := Some \<lparr>getName = ''HUDTexture'', getWidth = 1, getHeight = 300\<rparr>\<rparr>,
           [TextureCreateManual ''HUDTexture'' 1 300]) \<and>
   max (0::uint) 1 = 1 \<and> max (300::uint) 1 = 300 \<and>
   list_all nonzero_create [TextureCreateManual ''HUDTexture'' 1 300]"
proof -
  let ?p = "OverlayPanel_ctor (Some \<lparr>new_overlay_visible = True\<rparr>) ''HUD''"
  have v: "valid_resource ?p" by (rule valid_resource_ctor)
  note resize_floors_to_one [OF v, of 0 300 "[]", THEN conjunct1]
  then show ?thesis
    using v
    by (simp add: OverlayPanel_ctor_def updateTextureSize_def Overlay_hide_def Let_def
        word_max_one nonzero_create_def)
qed

text \<open>
  C7, as amended. After any sequence of operations on a validly constructed resource,
  the texture exists if and only if \<open>updateTextureSize\<close> has been called at least once,
  with any size, zero included.
\<close>

theorem texture_exists_iff_resized:
  "\<exists>p' tr'. run_panel xs (OverlayPanel_ctor (Some mgr) nm, tr) = Some (p', tr') \<and>
      valid_resource p' \<and>
      (texture p' \<noteq> None \<longleftrightarrow> list_ex is_resize xs)"
  using run_panel_valid [OF valid_resource_ctor, of xs mgr nm tr]
  by (auto simp: ctor_texture)

theorem texture_exists_iff_resized_witness:
  "\<exists>p' tr'. run_panel [Show, UpdateTextureSize 0 0]
       (OverlayPanel_ctor (Some \<lparr>new_overlay_visible = True\<rparr>) ''HUD'', []) = Some (p', tr') \<and>
      texture p' \<noteq> None \<and> list_ex is_resize [Show, UpdateTextureSize 0 0]"
  using texture_exists_iff_resized
    [of "[Show, UpdateTextureSize 0 0]" "\<lparr>new_overlay_visible = True\<rparr>" "''HUD''" "[]"]
  by (auto simp: is_resize_def)

text \<open>
  C7 as stated fails after a single request for the size (0, 0): a 1 by 1 texture exists,
  and no non-zero size has been requested (whether non-zero means one component or both).
\<close>

theorem texture_without_nonzero_request_counterexample:
  "map_option (texture \<circ> fst)
     (run_panel [UpdateTextureSize 0 0]
        (OverlayPanel_ctor (Some \<lparr>new_overlay_visible = True\<rparr>) ''HUD'', [])) =
     Some (Some \<lparr>getName = ''HUDTexture'', getWidth = 1, getHeight = 1\<rparr>) \<and>
   \<not> list_ex is_nonzero_resize [UpdateTextureSize 0 0]"
  by (simp add: OverlayPanel_ctor_def updateTextureSize_def Overlay_hide_def Let_def
      is_nonzero_resize_def)

text \<open>
  C8. A guard constructed from a null buffer handle is not valid and locks nothing;
  \<open>getQImage\<close> on it gives a null image for any dimensions and makes no call at all, so it
  reads no lock and writes no memory; its destructor unlocks nothing.
\<close>

theorem invalid_buffer_is_inert:
  "\<not> valid (fst (ScopedPixelBuffer_ctor None tr)) \<and>
   snd (ScopedPixelBuffer_ctor None tr) = tr \<and>
   getQImage (fst (ScopedPixelBuffer_ctor None tr)) w h tr = (NullImage, tr) \<and>
   isNull (fst (getQImage (fst (ScopedPixelBuffer_ctor None tr)) w h tr)) \<and>
   ScopedPixelBuffer_dtor (fst (ScopedPixelBuffer_ctor None tr)) tr = tr"
  by (simp add: ScopedPixelBuffer_ctor_def valid_def getQImage_def isNull_def
      ScopedPixelBuffer_dtor_def)

text \<open>
  C10. A panel is not visible right after construction, whatever visibility the manager
  gives a new overlay and also when construction failed; a panel with a null overlay is
  never visible; and a constructed panel stays hidden under every sequence of operations
  that has no \<open>show\<close>.
\<close>

theorem overlay_starts_hidden:
  "\<not> isVisible (OverlayPanel_ctor mgr nm) \<and>
   (overlay p = None \<longrightarrow> \<not> isVisible p) \<and>
   (\<not> list_ex is_show xs \<longrightarrow>
      (\<exists>p' tr'. run_panel xs (OverlayPanel_ctor (Some m) nm, tr) = Some (p', tr') \<and>
         \<not> isVisible p'))"
proof (intro conjI impI)
  show "\<not> isVisible (OverlayPanel_ctor mgr nm)" by (rule isVisible_ctor)
  show "\<not> isVisible p" if "overlay p = None" using that by (simp add: isVisible_def)
  show "\<exists>p' tr'. run_panel xs (OverlayPanel_ctor (Some m) nm, tr) = Some (p', tr') \<and>
         \<not> isVisible p'" if "\<not> list_ex is_show xs"
    using run_panel_valid [OF valid_resource_ctor, of xs m nm tr] that isVisible_ctor [of "Some m" nm]
    by blast
qed

theorem overlay_starts_hidden_witness:
  "\<not> isVisible (OverlayPanel_ctor (Some \<lparr>new_overlay_visible = True\<rparr>) ''HUD'') \<and>
   overlay (OverlayPanel_ctor None ''HUD'') = None \<and>
   \<not> isVisible (OverlayPanel_ctor None ''HUD'') \<and>
   \<not> list_ex is_show [UpdateTextureSize 64 64, Hide, SetPosition 3 4] \<and>
   (\<exists>p' tr'. run_panel [UpdateTextureSize 64 64, Hide, SetPosition 3 4]
       (OverlayPanel_ctor (Some \<lparr>new_overlay_visible = True\<rparr>) ''HUD'', []) = Some (p', tr') \<and>
      \<not> isVisible p')"
proof -
  have a: "overlay (OverlayPanel_ctor None ''HUD'') = None"
    by (simp add: OverlayPanel_ctor_def)
  have b: "\<not> list_ex is_show [UpdateTextureSize 64 64, Hide, SetPosition 3 4]"
    by (simp add: is_show_def)
  note t = overlay_starts_hidden [of "Some \<lparr>new_overlay_visible = True\<rparr>" "''HUD''"
      "OverlayPanel_ctor None ''HUD''" "[UpdateTextureSize 64 64, Hide, SetPosition 3 4]"
      "\<lparr>new_overlay_visible = True\<rparr>" "[]"]
  from t a b show ?thesis by blast
qed

section \<open>OverlayManager: the frame\<close>

lemma updateTextureSize_same:
  assumes "texture p = Some t" and "getWidth t \<noteq> 0" and "getHeight t \<noteq> 0"
  shows "updateTextureSize (getWidth t) (getHeight t) (p, tr) = Some (p, tr)"
  using assms by (simp add: updateTextureSize_def Let_def split: option.splits)

lemma render_skip:
  assumes "overlay_panel m = None \<or>
           (\<exists>p. overlay_panel m = Some p \<and> (textureWidth p = 0 \<or> textureHeight p = 0))"
  shows "render hw (m, tr) = Some (m, tr)"
  using assms by (auto simp: render_def Let_def)

lemma render_frame:
  assumes "overlay_panel m = Some p" and "textureWidth p \<noteq> 0" and "textureHeight p \<noteq> 0"
  shows "render hw (m, tr) =
           Some (m\<lparr>overlay_panel := Some (setDimensions (textureWidth p) (textureHeight p) p)\<rparr>,
                 tr @ render_calls hw (textureWidth p) (textureHeight p))"
proof -
  from assms obtain t where t: "texture p = Some t" and w: "getWidth t \<noteq> 0" and h: "getHeight t \<noteq> 0"
    by (auto simp: textureWidth_def textureHeight_def split: option.splits)
  have tw: "textureWidth p = getWidth t" and th: "textureHeight p = getHeight t"
    using t by (simp_all add: textureWidth_def textureHeight_def)
  have t2: "texture (setDimensions (getWidth t) (getHeight t) p) = Some t"
    using t by (simp add: setDimensions_def split: option.splits)
  show ?thesis
  proof (cases hw)
    case None
    then show ?thesis
      using assms(1) w h
      by (simp add: render_def tw th updateTextureSize_same [OF t w h] getPixelBuffer_def t2
          ScopedPixelBuffer_ctor_def valid_def ScopedPixelBuffer_dtor_def render_calls_def
          Let_def)
  next
    case (Some hb)
    then show ?thesis
      using assms(1) w h
      by (cases "lock_data hb")
        (simp_all add: render_def tw th updateTextureSize_same [OF t w h] getPixelBuffer_def t2
          ScopedPixelBuffer_ctor_def valid_def ScopedPixelBuffer_dtor_def render_calls_def
          getQImage_def isNull_def Let_def)
  qed
qed

lemma render_calls_balanced:
  "locks i (render_calls hw w h) = unlocks i (render_calls hw w h)"
  by (simp add: render_calls_def locks_def unlocks_def split: option.splits)

lemma render_lock_balanced:
  "\<exists>m' new. render hw (m, tr) = Some (m', tr @ new) \<and> locks i new = unlocks i new"
proof (cases "overlay_panel m = None \<or>
           (\<exists>p. overlay_panel m = Some p \<and> (textureWidth p = 0 \<or> textureHeight p = 0))")
  case True
  from render_skip [OF this, of hw tr] have "render hw (m, tr) = Some (m, tr @ [])" by simp
  moreover have "locks i [] = unlocks i []" by (simp add: locks_def unlocks_def)
  ultimately show ?thesis by blast
next
  case False
  then obtain p where p: "overlay_panel m = Some p" "textureWidth p \<noteq> 0" "textureHeight p \<noteq> 0"
    by auto
  from render_frame [OF p, of hw tr] render_calls_balanced show ?thesis by blast
qed

text \<open>
  C9. When the manager has no panel, or the panel's texture is absent or has zero width
  or height, \<open>render\<close> returns with the manager and the calls unchanged: nothing is
  painted or locked. \<open>render\<close> never fails. When \<open>getBuffer()\<close> gives a null buffer, so
  that the guard is invalid, the frame resizes the widget and makes no other call: no
  lock and no paint.
\<close>

theorem render_skips_without_texture:
  "((overlay_panel m = None \<or>
      (\<exists>p. overlay_panel m = Some p \<and> (textureWidth p = 0 \<or> textureHeight p = 0))) \<longrightarrow>
      render hw (m, tr) = Some (m, tr)) \<and>
   (\<exists>m' new. render hw (m, tr) = Some (m', tr @ new) \<and>
      (hw = None \<longrightarrow> \<not> list_ex is_paint new \<and> \<not> list_ex is_lock new)) \<and>
   (\<forall>p. overlay_panel m = Some p \<and> textureWidth p \<noteq> 0 \<and> textureHeight p \<noteq> 0 \<longrightarrow>
      (\<exists>m'. render None (m, tr) =
         Some (m', tr @ [WidgetResize (sint (textureWidth p)) (sint (textureHeight p))])))"
proof (intro conjI allI impI)
  assume "overlay_panel m = None \<or>
      (\<exists>p. overlay_panel m = Some p \<and> (textureWidth p = 0 \<or> textureHeight p = 0))"
  then show "render hw (m, tr) = Some (m, tr)" by (rule render_skip)
next
  show "\<exists>m' new. render hw (m, tr) = Some (m', tr @ new) \<and>
      (hw = None \<longrightarrow> \<not> list_ex is_paint new \<and> \<not> list_ex is_lock new)"
  proof (cases "overlay_panel m = None \<or>
           (\<exists>p. overlay_panel m = Some p \<and> (textureWidth p = 0 \<or> textureHeight p = 0))")
    case True
    from render_skip [OF this, of hw tr] have "render hw (m, tr) = Some (m, tr @ [])" by simp
    then show ?thesis by fastforce
  next
    case False
    then obtain p where p: "overlay_panel m = Some p" "textureWidth p \<noteq> 0" "textureHeight p \<noteq> 0"
      by auto
    have "hw = None \<longrightarrow> \<not> list_ex is_paint (render_calls hw (textureWidth p) (textureHeight p)) \<and>
        \<not> list_ex is_lock (render_calls hw (textureWidth p) (textureHeight p))"
      by (simp add: render_calls_def is_paint_def is_lock_def)
    with render_frame [OF p, of hw tr] show ?thesis by blast
  qed
next
  fix p
  assume "overlay_panel m = Some p \<and> textureWidth p \<noteq> 0 \<and> textureHeight p \<noteq> 0"
  then have p: "overlay_panel m = Some p" "textureWidth p \<noteq> 0" "textureHeight p \<noteq> 0"
    by simp_all
  from render_frame [OF p, of None tr]
  show "\<exists>m'. render None (m, tr) =
         Some (m', tr @ [WidgetResize (sint (textureWidth p)) (sint (textureHeight p))])"
    by (simp add: render_calls_def)
qed

theorem render_skips_without_texture_witness:
  "overlay_panel \<lparr>overlay_panel = Some (OverlayPanel_ctor None ''HUD''), render_panel = None\<rparr> =
     Some (OverlayPanel_ctor None ''HUD'') \<and>
   textureWidth (OverlayPanel_ctor None ''HUD'') = 0 \<and>
   render (Some \<lparr>buffer_id = 7, lock_data = Some 4096\<rparr>)
     (\<lparr>overlay_panel = Some (OverlayPanel_ctor None ''HUD''), render_panel = None\<rparr>, []) =
     Some (\<lparr>overlay_panel = Some (OverlayPanel_ctor None ''HUD''), render_panel = None\<rparr>, []) \<and>
   textureWidth (OverlayPanel_ctor None ''HUD''
      \<lparr>texture := Some \<lparr>getName = ''HUDTexture'', getWidth = 64, getHeight = 48\<rparr>\<rparr>) = 64 \<and>
   textureHeight (OverlayPanel_ctor None ''HUD''
      \<lparr>texture := Some \<lparr>getName = ''HUDTexture'', getWidth = 64, getHeight = 48\<rparr>\<rparr>) = 48 \<and>
   (\<exists>m'. render None
      (\<lparr>overlay_panel = Some (OverlayPanel_ctor None ''HUD''
          \<lparr>texture := Some \<lparr>getName = ''HUDTexture'', getWidth = 64, getHeight = 48\<rparr>\<rparr>),
        render_panel = None\<rparr>, []) = Some (m', [WidgetResize 64 48]))"
proof -
  let ?p = "OverlayPanel_ctor None ''HUD''"
  let ?m = "\<lparr>overlay_panel = Some ?p, render_panel = None\<rparr>"
  let ?q = "?p\<lparr>texture := Some \<lparr>getName = ''HUDTexture'', getWidth = 64, getHeight = 48\<rparr>\<rparr>"
  let ?n = "\<lparr>overlay_panel = Some ?q, render_panel = None\<rparr>"
  have a: "overlay_panel ?m = Some ?p" by simp
  have b: "textureWidth ?p = 0" by (simp add: textureWidth_def ctor_texture)
  note t = render_skips_without_texture
    [of ?m "Some \<lparr>buffer_id = 7, lock_data = Some 4096\<rparr>" "[]", THEN conjunct1]
  from t a b have first: "render (Some \<lparr>buffer_id = 7, lock_data = Some 4096\<rparr>) (?m, []) = Some (?m, [])"
    by blast
  have c: "overlay_panel ?n = Some ?q" by simp
  have d: "textureWidth ?q = 64" "textureHeight ?q = 48"
    by (simp_all add: textureWidth_def textureHeight_def)
  have e: "textureWidth ?q \<noteq> 0" "textureHeight ?q \<noteq> 0"
    by (simp_all add: d)
  note u = render_skips_without_texture
    [of ?n None "[]", THEN conjunct2, THEN conjunct2, rule_format, of ?q]
  from u c e have "\<exists>m'. render None (?n, []) =
      Some (m', [] @ [WidgetResize (sint (textureWidth ?q)) (sint (textureHeight ?q))])"
    by blast
  then have second: "\<exists>m'. render None (?n, []) = Some (m', [WidgetResize 64 48])"
    by (simp add: d)
  show ?thesis using a b first d second by blast
qed

end
